theory Spec2Isabelle
  imports Complex_Main
begin

section \<open>Data model of \<open>RecursiveHyperSpace\<close>\<close>

text \<open>
  The class \<open>RecursiveHyperSpace\<close> of \<open>__main__.py\<close> keeps five construction
  parameters and two mutable attributes. The parameters are never assigned after
  \<open>__init__\<close>, so they form a record of their own (\<open>config\<close>; \<open>self.h\<close> is
  the field \<open>system_length\<close>, after the constructor's parameter); the mutable
  attributes \<open>points_data\<close> and \<open>max_dims_used\<close> form the state record
  \<open>hyperspace\<close>, passed and returned explicitly.

  Numbers: positions are numpy \<open>float64\<close> arrays. The model reads them as
  mathematical reals, so rounding and overflow are outside of it. The one place where
  exact arithmetic would leave the reals, the division \<open>max_radius / current_r\<close>
  with \<open>current_r = 0\<close> (numpy answers with an infinity or a NaN and a
  RuntimeWarning), is an outcome of its own: \<open>Inl Non_finite\<close>.
\<close>

type_synonym vec3 = "real \<times> real \<times> real"

record config =
  limit_dims :: int
  system_length :: real
  base_slope :: real
  slope_growth :: real
  angle_step :: real

record trace_step =
  pos :: vec3
  step_label :: string

record vector_line =
  line_start :: vec3
  line_end :: vec3
  line_name :: string

record point =
  label :: string
  trace :: "trace_step list"
  vectors :: "vector_line list"

record hyperspace =
  points_data :: "point list"
  max_dims_used :: nat

text \<open>The two messages \<open>add_point\<close> prints, with the values they interpolate.\<close>

datatype notice =
  Warning_truncating string nat int
  | Error_too_small string

datatype error = Non_finite

text \<open>The constructor's defaults and the state \<open>__init__\<close> sets up.\<close>

definition default_config :: config where
  "default_config =
     \<lparr>limit_dims = 6, system_length = 12, base_slope = 1 / 4,
      slope_growth = 15 / 100, angle_step = 45\<rparr>"

definition init :: hyperspace where
  "init = \<lparr>points_data = [], max_dims_used = 0\<rparr>"

section \<open>Helpers of the host language\<close>

text \<open>Decimal rendering of a natural number, as an f-string does it.\<close>

definition digit_char :: "nat \<Rightarrow> char" where
  "digit_char d = ''0123456789'' ! d"

fun str_nat :: "nat \<Rightarrow> string" where
  "str_nat n = (if n < 10 then [digit_char n] else str_nat (n div 10) @ [digit_char (n mod 10)])"

declare str_nat.simps [simp del]

text \<open>
  Python's \<open>xs[:n]\<close>: the first \<open>n\<close> elements for \<open>n \<ge> 0\<close>, all but the last
  \<open>-n\<close> for a negative \<open>n\<close>.
\<close>

definition slice_upto :: "'a list \<Rightarrow> int \<Rightarrow> 'a list" where
  "slice_upto xs n =
     (if 0 \<le> n then take (nat n) xs else take (length xs - nat (- n)) xs)"

definition deg2rad :: "real \<Rightarrow> real" where
  "deg2rad d = d * (pi / 180)"

section \<open>Cone slope\<close>

definition calculate_cone_slope :: "config \<Rightarrow> nat \<Rightarrow> real" where
  "calculate_cone_slope cfg dim_index_offset =
     base_slope cfg + (slope_growth cfg * (real dim_index_offset + 1))"

section \<open>Folding one extra dimension\<close>

text \<open>
  Lines 65 to 75 of \<open>add_point\<close>: the radius of the candidate position around the
  x axis is compared with the cone's radius at that x, and the y and z components are
  rescaled when it is larger. The Boolean tells whether the branch was taken (the
  source's \<open>status\<close>).
\<close>

definition radius :: "vec3 \<Rightarrow> real" where
  "radius p = (case p of (x, y, z) \<Rightarrow> sqrt (y\<^sup>2 + z\<^sup>2))"

definition clamp :: "config \<Rightarrow> nat \<Rightarrow> vec3 \<Rightarrow> error + (vec3 \<times> bool)" where
  "clamp cfg i candidate_pos =
     (case candidate_pos of (x, y, z) \<Rightarrow>
        let this_cone_slope = calculate_cone_slope cfg i;
            current_x = x;
            max_radius = \<bar>current_x\<bar> * this_cone_slope;
            current_r = sqrt (y\<^sup>2 + z\<^sup>2)
        in if current_r > max_radius then
             (if current_r = 0 then Inl Non_finite
              else let scale = max_radius / current_r
                   in Inr ((x, y * scale, z * scale), True))
           else Inr ((x, y, z), False))"

text \<open>Lines 54 to 75: the offset of dimension \<open>4 + i\<close>, added and clamped.\<close>

definition fold_step :: "config \<Rightarrow> nat \<Rightarrow> vec3 \<Rightarrow> real \<Rightarrow> error + (vec3 \<times> bool)" where
  "fold_step cfg i prev_pos magnitude =
     (case prev_pos of (px, py, pz) \<Rightarrow>
        let deg_angle = 90 + (angle_step cfg * real i);
            rad_angle = deg2rad deg_angle;
            dy = magnitude * cos rad_angle;
            dz = magnitude * sin rad_angle;
            candidate_pos = (px + 0, py + dy, pz + dz)
        in clamp cfg i candidate_pos)"

text \<open>
  The loop of lines 53 to 84, from index \<open>i\<close> on: the trace steps and the vector
  lines it appends, in order.
\<close>

fun fold_extras ::
  "config \<Rightarrow> nat \<Rightarrow> vec3 \<Rightarrow> real list \<Rightarrow> error + (trace_step list \<times> vector_line list)"
where
  "fold_extras cfg i current_pos [] = Inr ([], [])"
| "fold_extras cfg i current_pos (magnitude # rest) =
     (case fold_step cfg i current_pos magnitude of
        Inl e \<Rightarrow> Inl e
      | Inr (new_pos, clamped) \<Rightarrow>
          (case fold_extras cfg (i + 1) new_pos rest of
             Inl e \<Rightarrow> Inl e
           | Inr (steps, lines) \<Rightarrow>
               Inr (\<lparr>pos = new_pos,
                     step_label = ''D'' @ str_nat (4 + i) @ '' '' @
                                  (if clamped then ''(Clamped)'' else '''')\<rparr> # steps,
                    \<lparr>line_start = current_pos, line_end = new_pos,
                     line_name = ''D'' @ str_nat (4 + i) @ '' Vector''\<rparr> # lines)))"

section \<open>Adding points\<close>

text \<open>Lines 25 to 32: the coordinates \<open>add_point\<close> goes on with.\<close>

definition truncated :: "config \<Rightarrow> real list \<Rightarrow> real list" where
  "truncated cfg coords =
     (if int (length coords) > limit_dims cfg then slice_upto coords (limit_dims cfg)
      else coords)"

definition add_point ::
  "config \<Rightarrow> hyperspace \<Rightarrow> real list \<Rightarrow> string \<Rightarrow> error + (hyperspace \<times> notice list)"
where
  "add_point cfg self coords0 lbl =
     (let input_dim_count = length coords0;
          printed = (if int input_dim_count > limit_dims cfg
                     then [Warning_truncating lbl input_dim_count (limit_dims cfg)] else []);
          coords = truncated cfg coords0
      in if length coords < 3 then Inr (self, printed @ [Error_too_small lbl])
         else
           let base_pos = (coords ! 0, coords ! 1, coords ! 2);
               extra_dims = drop 3 coords;
               self1 = (if length extra_dims > max_dims_used self
                        then self\<lparr>max_dims_used := length extra_dims\<rparr> else self)
           in case fold_extras cfg 0 base_pos extra_dims of
                Inl e \<Rightarrow> Inl e
              | Inr (steps, lines) \<Rightarrow>
                  Inr (self1\<lparr>points_data := points_data self1 @
                         [\<lparr>label = lbl,
                           trace = \<lparr>pos = base_pos, step_label = lbl @ '' (3D)''\<rparr> # steps,
                           vectors = lines\<rparr>]\<rparr>,
                       printed))"

text \<open>
  \<open>add_points_from_list\<close>: the loop over \<open>enumerate(list_of_points)\<close> from index
  \<open>i\<close> on, and the method itself, which starts it at 0.
\<close>

fun add_points_from ::
  "config \<Rightarrow> nat \<Rightarrow> hyperspace \<Rightarrow> real list list \<Rightarrow> error + (hyperspace \<times> notice list)"
where
  "add_points_from cfg i self [] = Inr (self, [])"
| "add_points_from cfg i self (p_coords # rest) =
     (case add_point cfg self p_coords (''BatchPoint_'' @ str_nat (i + 1)) of
        Inl e \<Rightarrow> Inl e
      | Inr (self', printed) \<Rightarrow>
          (case add_points_from cfg (i + 1) self' rest of
             Inl e \<Rightarrow> Inl e
           | Inr (self'', printed') \<Rightarrow> Inr (self'', printed @ printed')))"

definition add_points_from_list ::
  "config \<Rightarrow> hyperspace \<Rightarrow> real list list \<Rightarrow> error + (hyperspace \<times> notice list)"
where
  "add_points_from_list cfg self list_of_points = add_points_from cfg 0 self list_of_points"

text \<open>
  The dictionary that lines 86 to 90 append, for the coordinates \<open>c\<close> that
  \<open>add_point\<close> goes on with and the results of the loop.
\<close>

definition built_point :: "string \<Rightarrow> real list \<Rightarrow> trace_step list \<Rightarrow> vector_line list \<Rightarrow> point" where
  "built_point lbl c steps lines =
     \<lparr>label = lbl,
      trace = \<lparr>pos = (c ! 0, c ! 1, c ! 2), step_label = lbl @ '' (3D)''\<rparr> # steps,
      vectors = lines\<rparr>"

section \<open>Sequences of calls\<close>

text \<open>
  The largest number of extra dimensions among stored points, read off the traces, and
  a driver that applies a sequence of the two public methods to a state.
\<close>

primrec max_trace_extra :: "point list \<Rightarrow> nat" where
  "max_trace_extra [] = 0"
| "max_trace_extra (p # ps) = max (length (trace p) - 1) (max_trace_extra ps)"

datatype call = Add_point "real list" string | Add_points_from_list "real list list"

fun run :: "config \<Rightarrow> hyperspace \<Rightarrow> call list \<Rightarrow> error + hyperspace" where
  "run cfg self [] = Inr self"
| "run cfg self (Add_point coords lbl # calls) =
     (case add_point cfg self coords lbl of
        Inl e \<Rightarrow> Inl e
      | Inr (self', printed) \<Rightarrow> run cfg self' calls)"
| "run cfg self (Add_points_from_list list_of_points # calls) =
     (case add_points_from_list cfg self list_of_points of
        Inl e \<Rightarrow> Inl e
      | Inr (self', printed) \<Rightarrow> run cfg self' calls)"

section \<open>Sample inputs\<close>

text \<open>
  The point that \<open>add_point([8, 0, 0, 2], "A")\<close> stores under the default
  parameters, and the one that \<open>add_points_from_list([[1, 2], [8, 0, 0]])\<close>
  stores.
\<close>

definition example_point :: point where
  "example_point =
     \<lparr>label = ''A'',
      trace = [\<lparr>pos = (8, 0, 0), step_label = ''A (3D)''\<rparr>,
               \<lparr>pos = (8, 0, 2), step_label = ''D4 ''\<rparr>],
      vectors = [\<lparr>line_start = (8, 0, 0), line_end = (8, 0, 2),
                  line_name = ''D4 Vector''\<rparr>]\<rparr>"

definition example_batch_point :: point where
  "example_batch_point =
     \<lparr>label = ''BatchPoint_2'',
      trace = [\<lparr>pos = (8, 0, 0), step_label = ''BatchPoint_2 (3D)''\<rparr>],
      vectors = []\<rparr>"

section \<open>Clamping\<close>

lemma cone_slope_pos:
  "0 < base_slope cfg \<Longrightarrow> 0 < slope_growth cfg \<Longrightarrow> 0 < calculate_cone_slope cfg i"
  by (simp add: calculate_cone_slope_def add_pos_pos)

lemma slopes_nonneg:
  "0 < base_slope cfg \<Longrightarrow> 0 < slope_growth cfg \<Longrightarrow> 0 \<le> calculate_cone_slope cfg j"
  using cone_slope_pos [of cfg j] by simp


lemma clamp_total:
  assumes "0 \<le> calculate_cone_slope cfg i"
  shows "\<exists>q b. clamp cfg i p = Inr (q, b)"
proof (cases p)
  case (fields x y z)
  have "0 \<le> \<bar>x\<bar> * calculate_cone_slope cfg i" using assms by simp
  then show ?thesis using fields by (auto simp: clamp_def Let_def)
qed

lemma clamp_x:
  "clamp cfg i p = Inr (q, b) \<Longrightarrow> fst q = fst p"
  by (cases p) (auto simp: clamp_def Let_def split: if_splits)

lemma radius_scaled:
  "radius (x, y * s, z * s) = \<bar>s\<bar> * radius (x, y, z)"
proof -
  have "(y * s)\<^sup>2 + (z * s)\<^sup>2 = s\<^sup>2 * (y\<^sup>2 + z\<^sup>2)" by (simp add: power2_eq_square algebra_simps)
  then show ?thesis by (simp add: radius_def real_sqrt_mult)
qed

lemma clamp_fired:
  assumes "clamp cfg i (x, y, z) = Inr (q, True)"
  shows "radius (x, y, z) > \<bar>x\<bar> * calculate_cone_slope cfg i \<and> radius (x, y, z) \<noteq> 0 \<and>
         q = (x, y * (\<bar>x\<bar> * calculate_cone_slope cfg i / radius (x, y, z)),
                 z * (\<bar>x\<bar> * calculate_cone_slope cfg i / radius (x, y, z)))"
  using assms by (auto simp: clamp_def radius_def Let_def split: if_splits)

lemma clamp_not_fired:
  assumes "clamp cfg i p = Inr (q, False)"
  shows "q = p \<and> radius p \<le> \<bar>fst p\<bar> * calculate_cone_slope cfg i"
  using assms by (cases p) (auto simp: clamp_def radius_def Let_def split: if_splits)

lemma clamp_fired_radius:
  assumes "clamp cfg i p = Inr (q, True)" and "0 \<le> calculate_cone_slope cfg i"
  shows "radius q = \<bar>fst p\<bar> * calculate_cone_slope cfg i"
proof (cases p)
  case (fields x y z)
  let ?m = "\<bar>x\<bar> * calculate_cone_slope cfg i"
  let ?r = "radius (x, y, z)"
  from assms(1) fields have f: "?r \<noteq> 0" "q = (x, y * (?m / ?r), z * (?m / ?r))" "?r > ?m"
    using clamp_fired by blast+
  have m: "0 \<le> ?m" using assms(2) by simp
  have r: "0 < ?r" using f(3) m by linarith
  have "radius q = \<bar>?m / ?r\<bar> * ?r" unfolding f(2) by (rule radius_scaled)
  also have "\<dots> = (?m / ?r) * ?r" using m r by (simp only: abs_of_nonneg divide_nonneg_pos)
  also have "\<dots> = ?m" using r by simp
  finally show ?thesis using fields by simp
qed

lemma clamp_contained:
  assumes "clamp cfg i p = Inr (q, b)" and "0 \<le> calculate_cone_slope cfg i"
  shows "radius q \<le> \<bar>fst q\<bar> * calculate_cone_slope cfg i"
proof (cases b)
  case True
  with assms have "radius q = \<bar>fst p\<bar> * calculate_cone_slope cfg i"
    by (simp add: clamp_fired_radius)
  moreover have "fst q = fst p" using assms(1) by (rule clamp_x)
  ultimately show ?thesis by simp
next
  case False
  with assms(1) have "q = p \<and> radius p \<le> \<bar>fst p\<bar> * calculate_cone_slope cfg i"
    by (simp add: clamp_not_fired)
  then show ?thesis by simp
qed

section \<open>The fold loop\<close>

lemma fold_step_x:
  "fold_step cfg i p m = Inr (q, b) \<Longrightarrow> fst q = fst p"
  by (cases p) (auto simp: fold_step_def Let_def dest: clamp_x)

lemma fold_step_total:
  assumes "0 \<le> calculate_cone_slope cfg i"
  shows "\<exists>q b. fold_step cfg i p m = Inr (q, b)"
proof (cases p)
  case (fields x y z)
  define c where "c = (x, y + m * cos (deg2rad (90 + angle_step cfg * real i)),
                          z + m * sin (deg2rad (90 + angle_step cfg * real i)))"
  have "fold_step cfg i p m = clamp cfg i c"
    by (simp add: fields fold_step_def Let_def c_def)
  then show ?thesis using clamp_total [OF assms, of c] by simp
qed

lemma fold_step_contained:
  "fold_step cfg i p m = Inr (q, b) \<Longrightarrow> 0 \<le> calculate_cone_slope cfg i \<Longrightarrow>
   radius q \<le> \<bar>fst q\<bar> * calculate_cone_slope cfg i"
  by (cases p) (simp add: fold_step_def Let_def clamp_contained)

lemma fold_extras_total:
  assumes "\<And>j. 0 \<le> calculate_cone_slope cfg j"
  shows "\<exists>steps lines. fold_extras cfg i p ms = Inr (steps, lines)"
proof (induction ms arbitrary: i p)
  case Nil
  show ?case by simp
next
  case (Cons m ms)
  obtain q b where s: "fold_step cfg i p m = Inr (q, b)"
    using fold_step_total [OF assms] by blast
  obtain steps lines where r: "fold_extras cfg (i + 1) q ms = Inr (steps, lines)"
    using Cons.IH by blast
  show ?case using s r by auto
qed

lemma fold_extras_Cons_Inr:
  assumes "fold_extras cfg i p (m # ms) = Inr (steps, lines)"
  obtains q b steps' lines' where
    "fold_step cfg i p m = Inr (q, b)"
    "fold_extras cfg (i + 1) q ms = Inr (steps', lines')"
    "steps = \<lparr>pos = q, step_label = ''D'' @ str_nat (4 + i) @ '' '' @
                                  (if b then ''(Clamped)'' else '''')\<rparr> # steps'"
    "lines = \<lparr>line_start = p, line_end = q,
                     line_name = ''D'' @ str_nat (4 + i) @ '' Vector''\<rparr> # lines'"
  using assms by (auto split: sum.splits prod.splits)

lemma fold_extras_length:
  "fold_extras cfg i p ms = Inr (steps, lines) \<Longrightarrow>
   length steps = length ms \<and> length lines = length ms"
proof (induction ms arbitrary: i p steps lines)
  case Nil
  then show ?case by simp
next
  case (Cons m ms)
  from Cons.prems show ?case
    by (elim fold_extras_Cons_Inr) (use Cons.IH in fastforce)
qed

lemma fold_extras_x:
  "fold_extras cfg i p ms = Inr (steps, lines) \<Longrightarrow> s \<in> set steps \<Longrightarrow> fst (pos s) = fst p"
proof (induction ms arbitrary: i p steps lines)
  case Nil
  then show ?case by simp
next
  case (Cons m ms)
  from Cons.prems(1) obtain q b steps' lines' where
    st: "fold_step cfg i p m = Inr (q, b)" and
    re: "fold_extras cfg (i + 1) q ms = Inr (steps', lines')" and
    eq: "steps = \<lparr>pos = q, step_label = ''D'' @ str_nat (4 + i) @ '' '' @
                                  (if b then ''(Clamped)'' else '''')\<rparr> # steps'"
    by (rule fold_extras_Cons_Inr)
  have q: "fst q = fst p" using st by (rule fold_step_x)
  from Cons.prems(2) eq consider "pos s = q" | "s \<in> set steps'" by auto
  then show ?case
  proof cases
    case 1
    then show ?thesis using q by simp
  next
    case 2
    then show ?thesis using Cons.IH [OF re] q by simp
  qed
qed

lemma fold_extras_contained:
  assumes "\<And>j. 0 \<le> calculate_cone_slope cfg j"
  shows "fold_extras cfg i p ms = Inr (steps, lines) \<Longrightarrow> k < length steps \<Longrightarrow>
         radius (pos (steps ! k)) \<le> \<bar>fst (pos (steps ! k))\<bar> * calculate_cone_slope cfg (i + k)"
proof (induction ms arbitrary: i p steps lines k)
  case Nil
  then show ?case by simp
next
  case (Cons m ms)
  from Cons.prems(1) obtain q b steps' lines' where
    st: "fold_step cfg i p m = Inr (q, b)" and
    re: "fold_extras cfg (i + 1) q ms = Inr (steps', lines')" and
    eq: "steps = \<lparr>pos = q, step_label = ''D'' @ str_nat (4 + i) @ '' '' @
                                  (if b then ''(Clamped)'' else '''')\<rparr> # steps'"
    by (rule fold_extras_Cons_Inr)
  show ?case
  proof (cases k)
    case 0
    then show ?thesis using eq fold_step_contained [OF st assms] by simp
  next
    case (Suc k')
    then have "k' < length steps'" using Cons.prems(2) eq by simp
    from Cons.IH [OF re this] show ?thesis using Suc eq by simp
  qed
qed

section \<open>Truncation\<close>

lemma slice_upto_take:
  "\<exists>k. slice_upto xs n = take k xs"
  by (auto simp: slice_upto_def)

lemma truncated_take:
  "\<exists>k. truncated cfg coords = take k coords"
proof (cases "int (length coords) > limit_dims cfg")
  case True
  then have "truncated cfg coords = slice_upto coords (limit_dims cfg)"
    by (simp add: truncated_def)
  then show ?thesis using slice_upto_take [of coords "limit_dims cfg"] by simp
next
  case False
  then have "truncated cfg coords = take (length coords) coords" by (simp add: truncated_def)
  then show ?thesis by blast
qed

lemma truncated_nth:
  "j < length (truncated cfg coords) \<Longrightarrow> truncated cfg coords ! j = coords ! j"
  using truncated_take [of cfg coords] by auto

lemma truncated_first:
  assumes "3 \<le> length (truncated cfg coords)"
  shows "truncated cfg coords ! 0 = coords ! 0"
proof -
  have "0 < length (truncated cfg coords)" using assms by linarith
  then show ?thesis by (rule truncated_nth)
qed

section \<open>What add_point returns\<close>

lemma add_point_rejected:
  "length (truncated cfg coords) < 3 \<Longrightarrow>
   add_point cfg self coords lbl =
     Inr (self, (if int (length coords) > limit_dims cfg
                 then [Warning_truncating lbl (length coords) (limit_dims cfg)] else []) @
                [Error_too_small lbl])"
  by (simp add: add_point_def Let_def)

lemma built_point_simps:
  "label (built_point lbl c steps lines) = lbl"
  "trace (built_point lbl c steps lines) =
     \<lparr>pos = (c ! 0, c ! 1, c ! 2), step_label = lbl @ '' (3D)''\<rparr> # steps"
  "vectors (built_point lbl c steps lines) = lines"
  by (simp_all add: built_point_def)

lemma add_point_accepted:
  assumes "3 \<le> length (truncated cfg coords)"
    and "fold_extras cfg 0 (truncated cfg coords ! 0, truncated cfg coords ! 1, truncated cfg coords ! 2)
           (drop 3 (truncated cfg coords)) = Inr (steps, lines)"
  shows "add_point cfg self coords lbl =
     Inr (self\<lparr>max_dims_used := max (max_dims_used self) (length (truncated cfg coords) - 3),
               points_data := points_data self @
                 [built_point lbl (truncated cfg coords) steps lines]\<rparr>,
          if int (length coords) > limit_dims cfg
          then [Warning_truncating lbl (length coords) (limit_dims cfg)] else [])"
  using assms by (simp add: add_point_def Let_def max_def built_point_def)

lemma add_point_accepted_Inr:
  assumes "3 \<le> length (truncated cfg coords)"
    and "add_point cfg self coords lbl = Inr (self', printed)"
  obtains steps lines where
    "fold_extras cfg 0 (truncated cfg coords ! 0, truncated cfg coords ! 1, truncated cfg coords ! 2)
           (drop 3 (truncated cfg coords)) = Inr (steps, lines)"
  using assms by (auto simp: add_point_def Let_def split: sum.splits)

lemma add_point_effect:
  assumes "add_point cfg self coords lbl = Inr (self', printed)"
  shows "(length (truncated cfg coords) < 3 \<and> self' = self) \<or>
         (3 \<le> length (truncated cfg coords) \<and>
          (\<exists>p. label p = lbl \<and> length (trace p) = length (truncated cfg coords) - 2 \<and>
               length (vectors p) = length (truncated cfg coords) - 3 \<and>
               points_data self' = points_data self @ [p] \<and>
               max_dims_used self' = max (max_dims_used self) (length (trace p) - 1)))"
proof (cases "length (truncated cfg coords) < 3")
  case True
  then show ?thesis using assms by (simp add: add_point_rejected)
next
  case False
  then have len: "3 \<le> length (truncated cfg coords)" by simp
  from len assms obtain steps lines where
    f: "fold_extras cfg 0 (truncated cfg coords ! 0, truncated cfg coords ! 1, truncated cfg coords ! 2)
           (drop 3 (truncated cfg coords)) = Inr (steps, lines)"
    by (rule add_point_accepted_Inr)
  let ?p = "built_point lbl (truncated cfg coords) steps lines"
  have l: "length steps = length (truncated cfg coords) - 3"
    "length lines = length (truncated cfg coords) - 3"
    using fold_extras_length [OF f] by simp_all
  have s: "self' = self\<lparr>max_dims_used := max (max_dims_used self) (length (truncated cfg coords) - 3),
               points_data := points_data self @ [?p]\<rparr>"
    using add_point_accepted [OF len f, of self lbl] assms by simp
  have "label ?p = lbl" by (simp add: built_point_simps)
  moreover have "length (trace ?p) = length (truncated cfg coords) - 2"
    using l len by (simp add: built_point_simps)
  moreover have "length (vectors ?p) = length (truncated cfg coords) - 3"
    using l by (simp add: built_point_simps)
  moreover have "points_data self' = points_data self @ [?p]" using s by simp
  moreover have "max_dims_used self' = max (max_dims_used self) (length (trace ?p) - 1)"
    using s l by (simp add: built_point_simps)
  ultimately show ?thesis using len by blast
qed


section \<open>Aggregation over calls\<close>

lemma max_trace_extra_snoc:
  "max_trace_extra (ps @ [p]) = max (max_trace_extra ps) (length (trace p) - 1)"
  by (induction ps) (simp_all add: max.assoc)

lemma add_point_keeps_aggregate:
  assumes "add_point cfg self coords lbl = Inr (self', printed)"
  shows "max_dims_used self \<le> max_dims_used self'"
    and "max_dims_used self = max_trace_extra (points_data self) \<Longrightarrow>
         max_dims_used self' = max_trace_extra (points_data self')"
  using add_point_effect [OF assms] by (auto simp: max_trace_extra_snoc)

lemma add_points_from_keeps_aggregate:
  "add_points_from cfg i self ps = Inr (self', printed) \<Longrightarrow>
   max_dims_used self \<le> max_dims_used self' \<and>
   (max_dims_used self = max_trace_extra (points_data self) \<longrightarrow>
    max_dims_used self' = max_trace_extra (points_data self'))"
proof (induction ps arbitrary: i self printed)
  case Nil
  then show ?case by simp
next
  case (Cons c ps)
  from Cons.prems obtain self1 out1 out2 where
    a: "add_point cfg self c (''BatchPoint_'' @ str_nat (i + 1)) = Inr (self1, out1)" and
    r: "add_points_from cfg (i + 1) self1 ps = Inr (self', out2)"
    by (auto split: sum.splits prod.splits)
  from add_point_keeps_aggregate [OF a] Cons.IH [OF r] show ?case by auto
qed

lemma run_keeps_aggregate:
  "run cfg self calls = Inr self' \<Longrightarrow>
   max_dims_used self \<le> max_dims_used self' \<and>
   (max_dims_used self = max_trace_extra (points_data self) \<longrightarrow>
    max_dims_used self' = max_trace_extra (points_data self'))"
proof (induction cfg self calls rule: run.induct)
  case (1 cfg self)
  then show ?case by simp
next
  case (2 cfg self coords lbl calls)
  from "2.prems" obtain self1 out1 where
    a: "add_point cfg self coords lbl = Inr (self1, out1)" and r: "run cfg self1 calls = Inr self'"
    by (auto split: sum.splits prod.splits)
  from add_point_keeps_aggregate [OF a] "2.IH" [OF a _ r] show ?case by auto
next
  case (3 cfg self list_of_points calls)
  from "3.prems" obtain self1 out1 where
    a: "add_points_from_list cfg self list_of_points = Inr (self1, out1)" and
    r: "run cfg self1 calls = Inr self'"
    by (auto split: sum.splits prod.splits)
  from add_points_from_keeps_aggregate [OF a [unfolded add_points_from_list_def]]
    "3.IH" [OF a _ r] show ?case by auto
qed

lemma add_points_from_states:
  "add_points_from cfg i self ps = Inr (self', printed) \<Longrightarrow>
   \<exists>states. length states = length ps + 1 \<and> states ! 0 = self \<and> states ! length ps = self' \<and>
     (\<forall>k<length ps. \<exists>out.
        add_point cfg (states ! k) (ps ! k) (''BatchPoint_'' @ str_nat (i + k + 1)) =
          Inr (states ! (k + 1), out))"
proof (induction ps arbitrary: i self printed)
  case Nil
  then have "length [self] = length ([]::real list list) + 1 \<and> [self] ! 0 = self \<and>
    [self] ! length ([]::real list list) = self'" by simp
  then show ?case by (intro exI [of _ "[self]"]) simp
next
  case (Cons c ps)
  from Cons.prems obtain self1 out1 out2 where
    a: "add_point cfg self c (''BatchPoint_'' @ str_nat (i + 1)) = Inr (self1, out1)" and
    r: "add_points_from cfg (i + 1) self1 ps = Inr (self', out2)"
    by (auto split: sum.splits prod.splits)
  from Cons.IH [OF r] obtain states where
    s: "length states = length ps + 1" "states ! 0 = self1" "states ! length ps = self'" and
    t: "\<And>k. k < length ps \<Longrightarrow> \<exists>out.
        add_point cfg (states ! k) (ps ! k) (''BatchPoint_'' @ str_nat (i + 1 + k + 1)) =
          Inr (states ! (k + 1), out)"
    by blast
  have "\<exists>out. add_point cfg ((self # states) ! k) ((c # ps) ! k)
            (''BatchPoint_'' @ str_nat (i + k + 1)) = Inr ((self # states) ! (k + 1), out)"
    if "k < length (c # ps)" for k
  proof (cases k)
    case 0
    then show ?thesis using a s(2) by simp
  next
    case (Suc k')
    then have "k' < length ps" using that by simp
    from t [OF this] show ?thesis using Suc by simp
  qed
  moreover have "length (self # states) = length (c # ps) + 1" using s(1) by simp
  moreover have "(self # states) ! 0 = self" by simp
  moreover have "(self # states) ! length (c # ps) = self'" using s(3) by simp
  ultimately show ?case by blast
qed

section \<open>Evaluating the sample inputs\<close>

lemma default_config_fields:
  "limit_dims default_config = 6" "base_slope default_config = 1 / 4"
  "slope_growth default_config = 15 / 100" "angle_step default_config = 45"
  by (simp_all add: default_config_def)

lemma str_nat_examples:
  "str_nat (Suc 0) = ''1''" "str_nat (Suc (Suc 0)) = ''2''" "str_nat 4 = ''4''"
  by (simp_all add: str_nat.simps digit_char_def)

lemma example_truncated: "truncated default_config [8, 0, 0, 2] = [8, 0, 0, 2]"
  by (simp add: truncated_def default_config_fields)

lemma example_slope: "calculate_cone_slope default_config 0 = 2 / 5"
  by (simp add: calculate_cone_slope_def default_config_fields)


lemma example_radius_20: "radius (8, 0, 20) = 20"
  by (simp add: radius_def)

lemma example_radius_axis: "radius (0, 0, 1) = 1"
  by (simp add: radius_def)

lemma example_fold_step:
  "fold_step default_config 0 (8, 0, 0) 2 = Inr ((8, 0, 2), False)"
  by (simp add: fold_step_def clamp_def Let_def deg2rad_def default_config_fields
      calculate_cone_slope_def)

lemma example_fold_extras:
  "fold_extras default_config 0 (8, 0, 0) [2] =
     Inr ([\<lparr>pos = (8, 0, 2), step_label = ''D4 ''\<rparr>],
          [\<lparr>line_start = (8, 0, 0), line_end = (8, 0, 2),
            line_name = ''D4 Vector''\<rparr>])"
  by (simp add: example_fold_step str_nat_examples)

lemma example_add_point:
  "add_point default_config init [8, 0, 0, 2] ''A'' =
     Inr (\<lparr>points_data = [example_point], max_dims_used = 1\<rparr>, [])"
proof -
  have len: "3 \<le> length (truncated default_config [8, 0, 0, 2])"
    by (simp add: example_truncated)
  have f: "fold_extras default_config 0
      (truncated default_config [8, 0, 0, 2] ! 0, truncated default_config [8, 0, 0, 2] ! 1,
       truncated default_config [8, 0, 0, 2] ! 2) (drop 3 (truncated default_config [8, 0, 0, 2])) =
     Inr ([\<lparr>pos = (8, 0, 2), step_label = ''D4 ''\<rparr>],
          [\<lparr>line_start = (8, 0, 0), line_end = (8, 0, 2),
            line_name = ''D4 Vector''\<rparr>])"
    using example_fold_extras by (simp add: example_truncated)
  show ?thesis
    using add_point_accepted [OF len f, of init "''A''"]
    by (simp add: example_truncated built_point_def example_point_def init_def
        default_config_fields)
qed

lemma example_rejected:
  "add_point default_config self [1, 2] lbl = Inr (self, [Error_too_small lbl])"
  by (simp add: add_point_def truncated_def default_config_fields)

lemma example_accepted_3:
  "add_point default_config init [8, 0, 0] lbl =
     Inr (\<lparr>points_data = [\<lparr>label = lbl,
             trace = [\<lparr>pos = (8, 0, 0), step_label = lbl @ '' (3D)''\<rparr>], vectors = []\<rparr>],
           max_dims_used = 0\<rparr>, [])"
  by (simp add: add_point_def truncated_def default_config_fields init_def Let_def)

lemma example_batch:
  "add_points_from_list default_config init [[1, 2], [8, 0, 0]] =
     Inr (\<lparr>points_data = [example_batch_point], max_dims_used = 0\<rparr>,
          [Error_too_small ''BatchPoint_1''])"
  by (simp add: add_points_from_list_def example_rejected example_accepted_3
      example_batch_point_def str_nat_examples)

lemma example_run:
  "run default_config init [Add_point [8, 0, 0, 2] ''A''] =
     Inr \<lparr>points_data = [example_point], max_dims_used = 1\<rparr>"
  by (simp add: example_add_point)

lemma example_run_more:
  "run default_config \<lparr>points_data = [example_point], max_dims_used = 1\<rparr>
       [Add_point [1, 2] ''C''] =
     Inr \<lparr>points_data = [example_point], max_dims_used = 1\<rparr>"
  by (simp add: example_rejected)

lemma example_run_rejected:
  "run default_config init [Add_point [1, 2] ''C''] = Inr init"
  by (simp add: example_rejected)

text \<open>
  The constructor accepts any numbers. With a negative cone slope \<open>max_radius\<close> is
  negative, a candidate on the axis has a radius above it, and the clamp divides by
  that radius, which is 0: the properties below therefore assume the positive
  \<open>base_slope\<close> and \<open>slope_growth\<close> that the parameters are meant to have.
\<close>

lemma negative_slope_divides_by_zero:
  "clamp (default_config\<lparr>base_slope := - 1\<rparr>) 0 (1, 0, 0) = Inl Non_finite"
  by (simp add: clamp_def Let_def calculate_cone_slope_def default_config_def)

section \<open>Containment in the cone\<close>

text \<open>
  Claim C1. For a configuration with positive \<open>base_slope\<close> and
  \<open>slope_growth\<close>, every accepted input (at least three coordinates after
  truncation) yields a stored point, and every trace step of index \<open>k \<ge> 1\<close> of that
  point lies inside the cone of its dimension:
  \<open>sqrt (y\<^sup>2 + z\<^sup>2) \<le> \<bar>x\<bar> * cone_slope (k - 1)\<close>, for all real magnitudes.
\<close>

theorem folded_steps_stay_in_cone:
  assumes "0 < base_slope cfg" and "0 < slope_growth cfg"
    and "3 \<le> length (truncated cfg coords)"
    and "1 \<le> k" and "k < length (truncated cfg coords) - 2"
  shows "\<exists>self' printed p.
           add_point cfg self coords lbl = Inr (self', printed) \<and>
           points_data self' = points_data self @ [p] \<and>
           length (trace p) = length (truncated cfg coords) - 2 \<and>
           radius (pos (trace p ! k)) \<le>
             \<bar>fst (pos (trace p ! k))\<bar> * calculate_cone_slope cfg (k - 1)"
proof -
  let ?c = "truncated cfg coords"
  have nonneg: "\<And>j. 0 \<le> calculate_cone_slope cfg j"
    using assms(1,2) by (rule slopes_nonneg)
  obtain steps lines where
    f: "fold_extras cfg 0 (?c ! 0, ?c ! 1, ?c ! 2) (drop 3 ?c) = Inr (steps, lines)"
    using fold_extras_total [of cfg, OF nonneg] by blast
  let ?p = "built_point lbl ?c steps lines"
  have l: "length steps = length ?c - 3" using fold_extras_length [OF f] by simp
  have k: "k - 1 < length steps" using l assms(4,5) by linarith
  have tr: "trace ?p ! k = steps ! (k - 1)"
    using assms(4) by (simp add: built_point_simps nth_Cons')
  have "radius (pos (steps ! (k - 1))) \<le>
          \<bar>fst (pos (steps ! (k - 1)))\<bar> * calculate_cone_slope cfg (0 + (k - 1))"
    using nonneg f k by (rule fold_extras_contained)
  then have c: "radius (pos (trace ?p ! k)) \<le>
          \<bar>fst (pos (trace ?p ! k))\<bar> * calculate_cone_slope cfg (k - 1)"
    using tr by simp
  have n: "length (trace ?p) = length ?c - 2"
    using l assms(3) by (simp add: built_point_simps)
  have "add_point cfg self coords lbl =
     Inr (self\<lparr>max_dims_used := max (max_dims_used self) (length ?c - 3),
               points_data := points_data self @ [?p]\<rparr>,
          if int (length coords) > limit_dims cfg
          then [Warning_truncating lbl (length coords) (limit_dims cfg)] else [])"
    using assms(3) f by (rule add_point_accepted)
  moreover have "points_data (self\<lparr>max_dims_used := max (max_dims_used self) (length ?c - 3),
               points_data := points_data self @ [?p]\<rparr>) = points_data self @ [?p]" by simp
  ultimately show ?thesis using n c by blast
qed

theorem folded_steps_stay_in_cone_witness:
  "0 < base_slope default_config \<and> 0 < slope_growth default_config \<and>
   3 \<le> length (truncated default_config [8, 0, 0, 2]) \<and> (1::nat) \<le> 1 \<and>
   1 < length (truncated default_config [8, 0, 0, 2]) - 2 \<and>
   (\<exists>self' printed p.
      add_point default_config init [8, 0, 0, 2] ''A'' = Inr (self', printed) \<and>
      points_data self' = points_data init @ [p] \<and>
      length (trace p) = length (truncated default_config [8, 0, 0, 2]) - 2 \<and>
      radius (pos (trace p ! 1)) \<le>
        \<bar>fst (pos (trace p ! 1))\<bar> * calculate_cone_slope default_config (1 - 1))"
  using folded_steps_stay_in_cone [of default_config "[8, 0, 0, 2]" 1 init "''A''"]
  by (simp add: example_truncated default_config_fields)

section \<open>The cone slope function\<close>

text \<open>
  Claim C2. For every index \<open>i \<ge> 0\<close> the cone slope is exactly
  \<open>base_slope + slope_growth * (i + 1)\<close>; it is a total function of the configuration
  and the index alone, and for a positive \<open>slope_growth\<close> it is strictly increasing
  in \<open>i\<close>.
\<close>

theorem cone_slope_formula_and_strict_mono:
  "calculate_cone_slope cfg i = base_slope cfg + slope_growth cfg * (real i + 1) \<and>
   (0 < slope_growth cfg \<longrightarrow> i < j \<longrightarrow>
      calculate_cone_slope cfg i < calculate_cone_slope cfg j)"
  by (simp add: calculate_cone_slope_def)

theorem cone_slope_formula_and_strict_mono_witness:
  "calculate_cone_slope default_config 0 = 1 / 4 + 15 / 100 * (real 0 + 1) \<and>
   (0 < slope_growth default_config \<and> (0::nat) < 1 \<and>
      calculate_cone_slope default_config 0 < calculate_cone_slope default_config 1)"
  using cone_slope_formula_and_strict_mono [of default_config 0 1]
  by (simp add: default_config_def)

section \<open>Truncation of oversize inputs\<close>

text \<open>
  Claim C3. For a configuration with \<open>limit_dims \<ge> 3\<close> and positive slopes, a
  coordinate list longer than \<open>limit_dims\<close> is accepted: \<open>add_point\<close> prints the
  truncation warning only and stores a point, and that point and the resulting state are
  the ones obtained by calling \<open>add_point\<close> on the first \<open>limit_dims\<close>
  coordinates, which prints nothing.
\<close>

theorem oversize_input_is_truncated:
  assumes "3 \<le> limit_dims cfg" and "0 < base_slope cfg" and "0 < slope_growth cfg"
    and "limit_dims cfg < int (length coords)"
  shows "\<exists>p. add_point cfg self coords lbl =
              Inr (self\<lparr>max_dims_used := max (max_dims_used self) (nat (limit_dims cfg) - 3),
                        points_data := points_data self @ [p]\<rparr>,
                   [Warning_truncating lbl (length coords) (limit_dims cfg)]) \<and>
            add_point cfg self (slice_upto coords (limit_dims cfg)) lbl =
              Inr (self\<lparr>max_dims_used := max (max_dims_used self) (nat (limit_dims cfg) - 3),
                        points_data := points_data self @ [p]\<rparr>, [])"
proof -
  let ?t = "slice_upto coords (limit_dims cfg)"
  have t: "truncated cfg coords = ?t" using assms(4) by (simp add: truncated_def)
  have lt: "length ?t = nat (limit_dims cfg)"
    using assms(1,4) by (simp add: slice_upto_def)
  have tt: "truncated cfg ?t = ?t" using lt assms(1) by (simp add: truncated_def)
  have len: "3 \<le> length ?t" using lt assms(1) by simp
  have nonneg: "\<And>j. 0 \<le> calculate_cone_slope cfg j"
    using assms(2,3) by (rule slopes_nonneg)
  obtain steps lines where
    f: "fold_extras cfg 0 (?t ! 0, ?t ! 1, ?t ! 2) (drop 3 ?t) = Inr (steps, lines)"
    using fold_extras_total [of cfg, OF nonneg] by blast
  have a: "add_point cfg self coords lbl =
     Inr (self\<lparr>max_dims_used := max (max_dims_used self) (nat (limit_dims cfg) - 3),
               points_data := points_data self @ [built_point lbl ?t steps lines]\<rparr>,
          [Warning_truncating lbl (length coords) (limit_dims cfg)])"
    using add_point_accepted [of cfg coords steps lines self lbl] len f assms(4) lt
    by (simp add: t)
  have "\<not> limit_dims cfg < int (length ?t)" using lt assms(1) by simp
  then have b: "add_point cfg self ?t lbl =
     Inr (self\<lparr>max_dims_used := max (max_dims_used self) (nat (limit_dims cfg) - 3),
               points_data := points_data self @ [built_point lbl ?t steps lines]\<rparr>, [])"
    using add_point_accepted [of cfg ?t steps lines self lbl] len f lt
    by (simp add: tt)
  from a b show ?thesis by blast
qed

theorem oversize_input_is_truncated_witness:
  "3 \<le> limit_dims default_config \<and> 0 < base_slope default_config \<and>
   0 < slope_growth default_config \<and>
   limit_dims default_config < int (length [8, 0, 0, 2, 2, 1, 99 :: real]) \<and>
   (\<exists>p. add_point default_config init [8, 0, 0, 2, 2, 1, 99] ''B'' =
              Inr (init\<lparr>max_dims_used := 3, points_data := [p]\<rparr>,
                   [Warning_truncating ''B'' (length [8, 0, 0, 2, 2, 1, 99 :: real]) 6]) \<and>
        add_point default_config init [8, 0, 0, 2, 2, 1] ''B'' =
              Inr (init\<lparr>max_dims_used := 3, points_data := [p]\<rparr>, []))"
  using oversize_input_is_truncated [of default_config "[8, 0, 0, 2, 2, 1, 99]" init "''B''"]
  by (simp add: default_config_fields slice_upto_def init_def)

section \<open>The rejection boundary\<close>

text \<open>
  Claim C4. An input with fewer than three coordinates after truncation stores no
  point and leaves the state (\<open>points_data\<close> and \<open>max_dims_used\<close>) as it was,
  printing the error message; an input of exactly three coordinates (with
  \<open>limit_dims \<ge> 3\<close>, so that none is cut off) stores a point whose trace has length 1
  and whose list of vectors is empty.
\<close>

theorem rejection_boundary:
  "(length (truncated cfg coords) < 3 \<longrightarrow>
      (\<exists>printed. add_point cfg self coords lbl = Inr (self, printed) \<and>
                 Error_too_small lbl \<in> set printed)) \<and>
   (length coords3 = 3 \<and> 3 \<le> limit_dims cfg \<longrightarrow>
      (\<exists>p. add_point cfg self coords3 lbl =
              Inr (self\<lparr>points_data := points_data self @ [p]\<rparr>, []) \<and>
           length (trace p) = 1 \<and> vectors p = []))"
proof (intro conjI impI)
  assume "length (truncated cfg coords) < 3"
  then show "\<exists>printed. add_point cfg self coords lbl = Inr (self, printed) \<and>
                 Error_too_small lbl \<in> set printed"
    by (simp add: add_point_rejected)
next
  assume h: "length coords3 = 3 \<and> 3 \<le> limit_dims cfg"
  then have t: "truncated cfg coords3 = coords3" by (simp add: truncated_def)
  have f: "fold_extras cfg 0 (truncated cfg coords3 ! 0, truncated cfg coords3 ! 1,
             truncated cfg coords3 ! 2) (drop 3 (truncated cfg coords3)) = Inr ([], [])"
    using h by (simp add: t)
  have len: "3 \<le> length (truncated cfg coords3)" using h by (simp add: t)
  let ?p = "built_point lbl (truncated cfg coords3) [] []"
  have "add_point cfg self coords3 lbl = Inr (self\<lparr>points_data := points_data self @ [?p]\<rparr>, [])"
    using add_point_accepted [OF len f, of self lbl] h by (simp add: t)
  moreover have "length (trace ?p) = 1" "vectors ?p = []" by (simp_all add: built_point_simps)
  ultimately show "\<exists>p. add_point cfg self coords3 lbl =
              Inr (self\<lparr>points_data := points_data self @ [p]\<rparr>, []) \<and>
           length (trace p) = 1 \<and> vectors p = []" by blast
qed

theorem rejection_boundary_witness:
  "length (truncated default_config [1, 2]) < 3 \<and>
   (\<exists>printed. add_point default_config init [1, 2] ''C'' = Inr (init, printed) \<and>
              Error_too_small ''C'' \<in> set printed) \<and>
   length [8, 0, 0 :: real] = 3 \<and> 3 \<le> limit_dims default_config \<and>
   (\<exists>p. add_point default_config init [8, 0, 0] ''C'' =
           Inr (init\<lparr>points_data := points_data init @ [p]\<rparr>, []) \<and>
        length (trace p) = 1 \<and> vectors p = [])"
  using rejection_boundary [of default_config "[1, 2]" init "''C''" "[8, 0, 0]"]
  by (simp add: truncated_def default_config_fields)

section \<open>The maximum of extra dimensions\<close>

text \<open>
  Claim C5. After any sequence of \<open>add_point\<close> and \<open>add_points_from_list\<close>
  calls on a fresh object, \<open>max_dims_used\<close> is the maximum over the stored points
  of the trace length minus one; it does not decrease under further calls; and it is 0
  whenever no point is stored.
\<close>

theorem max_dims_used_is_the_maximum:
  assumes "run cfg init calls = Inr self1" and "run cfg self1 later = Inr self2"
    and "run cfg init calls0 = Inr self0" and "points_data self0 = []"
  shows "max_dims_used self1 = max_trace_extra (points_data self1) \<and>
         max_dims_used self1 \<le> max_dims_used self2 \<and>
         max_dims_used self0 = 0"
proof -
  have i: "max_dims_used init = max_trace_extra (points_data init)" by (simp add: init_def)
  have a: "max_dims_used self1 = max_trace_extra (points_data self1)"
    using run_keeps_aggregate [OF assms(1)] i by simp
  have b: "max_dims_used self1 \<le> max_dims_used self2"
    using run_keeps_aggregate [OF assms(2)] by simp
  have "max_dims_used self0 = max_trace_extra (points_data self0)"
    using run_keeps_aggregate [OF assms(3)] i by simp
  then have c: "max_dims_used self0 = 0" using assms(4) by simp
  from a b c show ?thesis by simp
qed

theorem max_dims_used_is_the_maximum_witness:
  "run default_config init [Add_point [8, 0, 0, 2] ''A''] =
     Inr \<lparr>points_data = [example_point], max_dims_used = 1\<rparr> \<and>
   run default_config \<lparr>points_data = [example_point], max_dims_used = 1\<rparr>
       [Add_point [1, 2] ''C''] =
     Inr \<lparr>points_data = [example_point], max_dims_used = 1\<rparr> \<and>
   run default_config init [Add_point [1, 2] ''C''] = Inr init \<and>
   points_data init = [] \<and>
   max_dims_used \<lparr>points_data = [example_point], max_dims_used = 1\<rparr> =
     max_trace_extra [example_point] \<and>
   max_dims_used init = 0"
  using max_dims_used_is_the_maximum [OF example_run example_run_more example_run_rejected]
    example_run example_run_more example_run_rejected
  by (simp add: init_def)

section \<open>Totality of folding\<close>



section \<open>Idempotence of the clamp\<close>



section \<open>The x coordinate is never touched\<close>

text \<open>
  Claim C8. For every accepted point, each position of the stored trace has the
  first input coordinate as its x component; a single fold step (offset with zero x
  component, then the clamp, which rescales y and z only) returns the x it was given.
\<close>

theorem trace_keeps_x:
  assumes "3 \<le> length (truncated cfg coords)"
    and "add_point cfg self coords lbl = Inr (self', printed)"
    and "fold_step cfg i a magnitude = Inr (q, b)"
  shows "(\<exists>p. points_data self' = points_data self @ [p] \<and>
              (\<forall>s \<in> set (trace p). fst (pos s) = coords ! 0)) \<and>
         fst q = fst a"
proof -
  let ?c = "truncated cfg coords"
  from assms(1,2) obtain steps lines where
    f: "fold_extras cfg 0 (?c ! 0, ?c ! 1, ?c ! 2) (drop 3 ?c) = Inr (steps, lines)"
    by (rule add_point_accepted_Inr)
  let ?p = "built_point lbl ?c steps lines"
  have "self' = self\<lparr>max_dims_used := max (max_dims_used self) (length ?c - 3),
               points_data := points_data self @ [?p]\<rparr>"
    using add_point_accepted [OF assms(1) f, of self lbl] assms(2) by simp
  then have pd: "points_data self' = points_data self @ [?p]" by simp
  have c0: "?c ! 0 = coords ! 0" using assms(1) by (rule truncated_first)
  have "fst (pos s) = coords ! 0" if "s \<in> set (trace ?p)" for s
  proof -
    from that consider "pos s = (?c ! 0, ?c ! 1, ?c ! 2)" | "s \<in> set steps"
      by (auto simp: built_point_simps)
    then show ?thesis
    proof cases
      case 1
      then show ?thesis using c0 by simp
    next
      case 2
      from fold_extras_x [OF f 2] show ?thesis using c0 by simp
    qed
  qed
  then have "\<forall>s \<in> set (trace ?p). fst (pos s) = coords ! 0" by blast
  with pd have "\<exists>p. points_data self' = points_data self @ [p] \<and>
              (\<forall>s \<in> set (trace p). fst (pos s) = coords ! 0)" by blast
  moreover have "fst q = fst a" using assms(3) by (rule fold_step_x)
  ultimately show ?thesis by simp
qed

theorem trace_keeps_x_witness:
  "3 \<le> length (truncated default_config [8, 0, 0, 2]) \<and>
   add_point default_config init [8, 0, 0, 2] ''A'' =
     Inr (\<lparr>points_data = [example_point], max_dims_used = 1\<rparr>, []) \<and>
   fold_step default_config 0 (8, 0, 0) 2 = Inr ((8, 0, 2), False) \<and>
   (\<exists>p. points_data \<lparr>points_data = [example_point], max_dims_used = 1\<rparr> =
          points_data init @ [p] \<and>
        (\<forall>s \<in> set (trace p). fst (pos s) = [8, 0, 0, 2] ! 0)) \<and>
   fst (8 :: real, 0 :: real, 2 :: real) = fst (8 :: real, 0 :: real, 0 :: real)"
proof -
  have len: "3 \<le> length (truncated default_config [8, 0, 0, 2])"
    by (simp add: example_truncated)
  from trace_keeps_x [OF len example_add_point example_fold_step] len example_add_point
    example_fold_step
  show ?thesis by simp
qed

section \<open>The batch method\<close>

text \<open>
  Claim C9. \<open>add_points_from_list\<close> is one \<open>add_point\<close> call per entry, in input
  order, the \<open>k\<close>-th entry (counting from 0) under the label \<open>BatchPoint_\<close>
  followed by \<open>k + 1\<close>, each call starting from the state the previous one left: an
  entry with fewer than three coordinates after truncation leaves the state as it was,
  any other entry appends exactly one point carrying that label.
\<close>

theorem batch_adds_in_order:
  assumes "add_points_from_list cfg self list_of_points = Inr (self', printed)"
  shows "\<exists>states.
           length states = length list_of_points + 1 \<and>
           states ! 0 = self \<and> states ! length list_of_points = self' \<and>
           (\<forall>k<length list_of_points. \<exists>out.
              add_point cfg (states ! k) (list_of_points ! k) (''BatchPoint_'' @ str_nat (k + 1)) =
                Inr (states ! (k + 1), out) \<and>
              (length (truncated cfg (list_of_points ! k)) < 3 \<longrightarrow>
                 states ! (k + 1) = states ! k) \<and>
              (3 \<le> length (truncated cfg (list_of_points ! k)) \<longrightarrow>
                 (\<exists>p. label p = ''BatchPoint_'' @ str_nat (k + 1) \<and>
                      points_data (states ! (k + 1)) = points_data (states ! k) @ [p])))"
proof -
  from assms have "add_points_from cfg 0 self list_of_points = Inr (self', printed)"
    by (simp add: add_points_from_list_def)
  from add_points_from_states [OF this] obtain states where
    s: "length states = length list_of_points + 1" "states ! 0 = self"
       "states ! length list_of_points = self'" and
    t: "\<And>k. k < length list_of_points \<Longrightarrow> \<exists>out.
        add_point cfg (states ! k) (list_of_points ! k) (''BatchPoint_'' @ str_nat (k + 1)) =
          Inr (states ! (k + 1), out)"
    by auto
  have "\<exists>out.
      add_point cfg (states ! k) (list_of_points ! k) (''BatchPoint_'' @ str_nat (k + 1)) =
        Inr (states ! (k + 1), out) \<and>
      (length (truncated cfg (list_of_points ! k)) < 3 \<longrightarrow> states ! (k + 1) = states ! k) \<and>
      (3 \<le> length (truncated cfg (list_of_points ! k)) \<longrightarrow>
         (\<exists>p. label p = ''BatchPoint_'' @ str_nat (k + 1) \<and>
              points_data (states ! (k + 1)) = points_data (states ! k) @ [p]))"
    if "k < length list_of_points" for k
  proof -
    from t [OF that] obtain out where
      a: "add_point cfg (states ! k) (list_of_points ! k) (''BatchPoint_'' @ str_nat (k + 1)) =
          Inr (states ! (k + 1), out)" ..
    from add_point_effect [OF a]
    have "(length (truncated cfg (list_of_points ! k)) < 3 \<longrightarrow> states ! (k + 1) = states ! k) \<and>
      (3 \<le> length (truncated cfg (list_of_points ! k)) \<longrightarrow>
         (\<exists>p. label p = ''BatchPoint_'' @ str_nat (k + 1) \<and>
              points_data (states ! (k + 1)) = points_data (states ! k) @ [p]))"
      by auto
    with a show ?thesis by blast
  qed
  with s show ?thesis by blast
qed

theorem batch_adds_in_order_witness:
  "add_points_from_list default_config init [[1, 2], [8, 0, 0]] =
     Inr (\<lparr>points_data = [example_batch_point], max_dims_used = 0\<rparr>,
          [Error_too_small ''BatchPoint_1'']) \<and>
   (\<exists>states.
      length states = length [[1, 2], [8, 0, 0 :: real]] + 1 \<and>
      states ! 0 = init \<and>
      states ! length [[1, 2], [8, 0, 0 :: real]] =
        \<lparr>points_data = [example_batch_point], max_dims_used = 0\<rparr> \<and>
      (\<forall>k<length [[1, 2], [8, 0, 0 :: real]]. \<exists>out.
         add_point default_config (states ! k) ([[1, 2], [8, 0, 0]] ! k)
             (''BatchPoint_'' @ str_nat (k + 1)) =
           Inr (states ! (k + 1), out) \<and>
         (length (truncated default_config ([[1, 2], [8, 0, 0]] ! k)) < 3 \<longrightarrow>
            states ! (k + 1) = states ! k) \<and>
         (3 \<le> length (truncated default_config ([[1, 2], [8, 0, 0]] ! k)) \<longrightarrow>
            (\<exists>p. label p = ''BatchPoint_'' @ str_nat (k + 1) \<and>
                 points_data (states ! (k + 1)) = points_data (states ! k) @ [p]))))"
  by (intro conjI) (rule example_batch, rule batch_adds_in_order [OF example_batch])

section \<open>Where a clamped position lands\<close>

text \<open>
  Claim C10, amended. For positive \<open>base_slope\<close> and \<open>slope_growth\<close>, whenever
  the candidate's radius strictly exceeds \<open>max_radius = \<bar>x\<bar> * cone_slope i\<close>, the
  clamp takes its branch, scales y and z by the same factor \<open>max_radius / radius\<close>,
  and the resulting radius is exactly \<open>max_radius\<close>. The factor is non-negative, and
  positive exactly when \<open>x \<noteq> 0\<close>: for a candidate with \<open>x = 0\<close> it is 0 and the
  position collapses onto the axis.
\<close>

theorem clamp_lands_on_cone:
  assumes "0 < base_slope cfg" and "0 < slope_growth cfg"
    and "\<bar>x\<bar> * calculate_cone_slope cfg i < radius (x, y, z)"
  shows "clamp cfg i (x, y, z) =
           Inr ((x, y * (\<bar>x\<bar> * calculate_cone_slope cfg i / radius (x, y, z)),
                    z * (\<bar>x\<bar> * calculate_cone_slope cfg i / radius (x, y, z))), True) \<and>
         radius (x, y * (\<bar>x\<bar> * calculate_cone_slope cfg i / radius (x, y, z)),
                    z * (\<bar>x\<bar> * calculate_cone_slope cfg i / radius (x, y, z))) =
           \<bar>x\<bar> * calculate_cone_slope cfg i \<and>
         0 \<le> \<bar>x\<bar> * calculate_cone_slope cfg i / radius (x, y, z) \<and>
         (x \<noteq> 0 \<longrightarrow> 0 < \<bar>x\<bar> * calculate_cone_slope cfg i / radius (x, y, z))"
proof -
  let ?m = "\<bar>x\<bar> * calculate_cone_slope cfg i"
  let ?r = "radius (x, y, z)"
  have sl: "0 < calculate_cone_slope cfg i" using assms(1,2) by (rule cone_slope_pos)
  then have m: "0 \<le> ?m" by simp
  then have r: "0 < ?r" using assms(3) by linarith
  have c: "clamp cfg i (x, y, z) = Inr ((x, y * (?m / ?r), z * (?m / ?r)), True)"
    using assms(3) r by (auto simp: clamp_def radius_def Let_def)
  have "radius (x, y * (?m / ?r), z * (?m / ?r)) = ?m"
    using clamp_fired_radius [OF c] sl by simp
  moreover have "0 \<le> ?m / ?r" using m r by simp
  moreover have "x \<noteq> 0 \<longrightarrow> 0 < ?m / ?r" using sl r by simp
  ultimately show ?thesis using c by simp
qed

theorem clamp_lands_on_cone_witness:
  "0 < base_slope default_config \<and> 0 < slope_growth default_config \<and>
   \<bar>8\<bar> * calculate_cone_slope default_config 0 < radius (8, 0, 20) \<and>
   clamp default_config 0 (8, 0, 20) = Inr ((8, 0, 16 / 5), True) \<and>
   radius (8, 0, 16 / 5) = \<bar>8\<bar> * calculate_cone_slope default_config 0 \<and>
   (8 :: real) \<noteq> 0 \<and>
   0 < \<bar>8\<bar> * calculate_cone_slope default_config 0 / radius (8, 0, 20)"
  using clamp_lands_on_cone [of default_config 8 0 0 20]
  by (simp add: example_radius_20 example_slope default_config_fields)

text \<open>
  As first stated, with a positive factor, the property fails on the axis: the input
  \<open>[0, 0, 0, 1]\<close> under the default parameters gives the candidate \<open>(0, 0, 1)\<close>,
  whose radius 1 exceeds \<open>max_radius = 0\<close>; the branch is taken with the factor 0.
\<close>

theorem clamp_factor_zero_on_axis:
  "\<bar>0\<bar> * calculate_cone_slope default_config 0 < radius (0, 0, 1) \<and>
   fold_step default_config 0 (0, 0, 0) 1 = Inr ((0, 0, 0), True) \<and>
   clamp default_config 0 (0, 0, 1) = Inr ((0, 0 * (\<bar>0\<bar> * calculate_cone_slope default_config 0 / radius (0, 0, 1)),
       1 * (\<bar>0\<bar> * calculate_cone_slope default_config 0 / radius (0, 0, 1))), True) \<and>
   \<not> 0 < \<bar>0\<bar> * calculate_cone_slope default_config 0 / radius (0, 0, 1)"
  by (simp add: example_radius_axis fold_step_def clamp_def Let_def deg2rad_def
      default_config_fields)

end
